theory Spec2Isabelle
  imports Main "HOL-Library.Word" "HOL-Library.Sublist" "HOL-Library.AList"
begin

section \<open>JavaScript strings\<close>

text \<open>
  A JavaScript string is a sequence of UTF-16 code units. \<open>js\<close> turns an ASCII literal
  into such a sequence, so that the literals of \<^verbatim>\<open>adapter.js\<close> can be written down.
\<close>

type_synonym jsstring = "16 word list"

definition js :: "string \<Rightarrow> jsstring" where
  "js s = map (\<lambda>c. of_nat (of_char c)) s"

text \<open>
  \<^verbatim>\<open>String.prototype.trim\<close> strips the code units that ECMAScript calls WhiteSpace or
  LineTerminator from both ends.
\<close>

definition isWhiteSpace :: "16 word \<Rightarrow> bool" where
  "isWhiteSpace c \<longleftrightarrow>
     c \<in> {0x09, 0x0A, 0x0B, 0x0C, 0x0D, 0x20, 0xA0, 0x1680, 0x2028, 0x2029, 0x202F, 0x205F,
          0x3000, 0xFEFF} \<or> (0x2000 \<le> c \<and> c \<le> 0x200A)"

definition trim :: "jsstring \<Rightarrow> jsstring" where
  "trim s = rev (dropWhile isWhiteSpace (rev (dropWhile isWhiteSpace s)))"

text \<open>\<^verbatim>\<open>s.includes(d)\<close>: \<open>d\<close> occurs in \<open>s\<close> as a contiguous run.\<close>

fun str_includes :: "jsstring \<Rightarrow> jsstring \<Rightarrow> bool" where
  "str_includes [] d = (d = [])"
| "str_includes (x # xs) d = (prefix d (x # xs) \<or> str_includes xs d)"

text \<open>Decimal rendering of a port number, as the template literal does it.\<close>

fun decimal :: "nat \<Rightarrow> jsstring" where
  "decimal n = (if n < 10 then [of_nat (48 + n)] else decimal (n div 10) @ [of_nat (48 + n mod 10)])"

declare decimal.simps [simp del]

text \<open>The operator \<^verbatim>\<open>||\<close> on an optional number and on an optional string:
  \<^verbatim>\<open>undefined\<close>, \<^verbatim>\<open>0\<close> and \<^verbatim>\<open>""\<close> are falsy.\<close>

definition or_number :: "int option \<Rightarrow> int \<Rightarrow> int" where
  "or_number a b = (case a of None \<Rightarrow> b | Some t \<Rightarrow> if t = 0 then b else t)"

definition or_string :: "jsstring option \<Rightarrow> jsstring \<Rightarrow> jsstring" where
  "or_string a b = (case a of None \<Rightarrow> b | Some s \<Rightarrow> if s = [] then b else s)"


section \<open>The connection pool\<close>

text \<open>
  A \<^verbatim>\<open>net.Socket\<close> object is known by its identity, a number given at creation.
  \<open>connections\<close> is the \<^verbatim>\<open>Map\<close> of \<^verbatim>\<open>TCPConnectionPool\<close>, in insertion order; the other
  fields are the sockets created so far: how many, the key that the closures registered in
  \<^verbatim>\<open>getConnection\<close> captured, which sockets still wait for their connect callback, which
  have \<^verbatim>\<open>destroyed\<close> set, and what was written to each of them.
\<close>

type_synonym sock = nat

record world =
  connections :: "(jsstring \<times> sock) list"
  nsocks :: nat
  sock_key :: "sock \<Rightarrow> jsstring"
  connecting :: "sock set"
  destroyed :: "sock set"
  wire :: "(sock \<times> jsstring) list"

definition Map_get :: "jsstring \<Rightarrow> (jsstring \<times> sock) list \<Rightarrow> sock option" where
  "Map_get k m = map_of m k"

definition Map_set :: "jsstring \<Rightarrow> sock \<Rightarrow> (jsstring \<times> sock) list \<Rightarrow> (jsstring \<times> sock) list" where
  "Map_set k v m = AList.update k v m"

definition Map_delete :: "jsstring \<Rightarrow> (jsstring \<times> sock) list \<Rightarrow> (jsstring \<times> sock) list" where
  "Map_delete k m = AList.delete k m"

definition Map_keys :: "(jsstring \<times> sock) list \<Rightarrow> jsstring list" where
  "Map_keys m = map fst m"

definition mk_key :: "jsstring \<Rightarrow> nat \<Rightarrow> jsstring" where
  "mk_key host port = host @ js '':'' @ decimal port"

text \<open>
  \<^verbatim>\<open>getConnection\<close> runs to its end without suspending: it either hands back the stored
  socket, or creates a socket whose connect callback is still to come. \<open>createConnection\<close>
  is the executor of the promise of lines 22 to 32: a fresh socket, with the error and close
  listeners of the pool on it.
\<close>

datatype acquired = Existing sock | Pending sock

definition createConnection :: "jsstring \<Rightarrow> 'a world_scheme \<Rightarrow> acquired \<times> 'a world_scheme" where
  "createConnection key w =
     (let s = nsocks w in
      (Pending s,
       w\<lparr>nsocks := Suc s,
         sock_key := (sock_key w)(s := key),
         connecting := insert s (connecting w),
         destroyed := destroyed w - {s}\<rparr>))"

definition getConnection :: "jsstring \<Rightarrow> nat \<Rightarrow> 'a world_scheme \<Rightarrow> acquired \<times> 'a world_scheme" where
  "getConnection host port w =
     (let key = mk_key host port in
      case Map_get key (connections w) of
        Some conn \<Rightarrow>
          if conn \<notin> destroyed w then (Existing conn, w)
          else createConnection key (w\<lparr>connections := Map_delete key (connections w)\<rparr>)
      | None \<Rightarrow> createConnection key w)"

text \<open>The connect callback of line 23 and the close listener of line 29, for socket \<open>s\<close>.\<close>

definition on_connect :: "sock \<Rightarrow> 'a world_scheme \<Rightarrow> 'a world_scheme" where
  "on_connect s w =
     w\<lparr>connecting := connecting w - {s},
       connections := Map_set (sock_key w s) s (connections w)\<rparr>"

definition on_close :: "sock \<Rightarrow> 'a world_scheme \<Rightarrow> 'a world_scheme" where
  "on_close s w = w\<lparr>connections := Map_delete (sock_key w s) (connections w)\<rparr>"

definition closeAll :: "'a world_scheme \<Rightarrow> 'a world_scheme" where
  "closeAll w = w\<lparr>destroyed := destroyed w \<union> snd ` set (connections w), connections := []\<rparr>"

text \<open>
  What Node does to a socket, whoever listens: \<^verbatim>\<open>destroy()\<close> sets \<^verbatim>\<open>destroyed\<close>; a socket
  that reports an error or its close is destroyed by then and no longer connecting. The
  error listener of the pool is the \<^verbatim>\<open>reject\<close> of the promise of \<^verbatim>\<open>getConnection\<close> and
  leaves the pool as it is; the close listener is \<open>on_close\<close>.
\<close>

definition destroy :: "sock \<Rightarrow> 'a world_scheme \<Rightarrow> 'a world_scheme" where
  "destroy s w = w\<lparr>destroyed := insert s (destroyed w)\<rparr>"

definition sock_error :: "sock \<Rightarrow> 'a world_scheme \<Rightarrow> 'a world_scheme" where
  "sock_error s w = w\<lparr>destroyed := insert s (destroyed w), connecting := connecting w - {s}\<rparr>"

definition sock_close :: "sock \<Rightarrow> 'a world_scheme \<Rightarrow> 'a world_scheme" where
  "sock_close s w =
     on_close s (w\<lparr>destroyed := insert s (destroyed w), connecting := connecting w - {s}\<rparr>)"

text \<open>
  The pool on its own, under any number of callers: a caller acquires a connection or
  destroys a socket it holds, a socket connects, fails or closes, the adapter stops.
\<close>

datatype pool_event =
    Acquire jsstring nat
  | SockConnect sock
  | SockError sock
  | SockClose sock
  | Destroy sock
  | CloseAll

fun pool_step :: "pool_event \<Rightarrow> world \<Rightarrow> world" where
  "pool_step (Acquire host port) w = snd (getConnection host port w)"
| "pool_step (SockConnect s) w = (if s < nsocks w \<and> s \<in> connecting w then on_connect s w else w)"
| "pool_step (SockError s) w = (if s < nsocks w then sock_error s w else w)"
| "pool_step (SockClose s) w = (if s < nsocks w then sock_close s w else w)"
| "pool_step (Destroy s) w = (if s < nsocks w then destroy s w else w)"
| "pool_step CloseAll w = closeAll w"

fun pool_run :: "pool_event list \<Rightarrow> world \<Rightarrow> world" where
  "pool_run [] w = w"
| "pool_run (e # es) w = pool_run es (pool_step e w)"

text \<open>
  The entry of a key that is OPEN: stored and not destroyed. \<open>open_entries\<close> lists all
  of them, \<open>open_entry\<close> is the one \<^verbatim>\<open>getConnection\<close> would hand back.
\<close>

definition open_entries :: "jsstring \<Rightarrow> 'a world_scheme \<Rightarrow> (jsstring \<times> sock) list" where
  "open_entries k w = filter (\<lambda>e. fst e = k \<and> snd e \<notin> destroyed w) (connections w)"

definition open_entry :: "jsstring \<Rightarrow> 'a world_scheme \<Rightarrow> sock option" where
  "open_entry k w =
     (case Map_get k (connections w) of
        Some conn \<Rightarrow> if conn \<notin> destroyed w then Some conn else None
      | None \<Rightarrow> None)"

text \<open>
  What holds of the pool whatever happens: no key is stored twice, and a stored socket
  was created by \<^verbatim>\<open>getConnection\<close> for the key it is stored under.
\<close>

definition pool_ok :: "'a world_scheme \<Rightarrow> bool" where
  "pool_ok w \<longleftrightarrow>
     distinct (Map_keys (connections w)) \<and>
     (\<forall>e \<in> set (connections w). snd e < nsocks w \<and> sock_key w (snd e) = fst e)"


section \<open>One invocation of sendTCPCommand\<close>

text \<open>
  The promise of an invocation settles once: \<^verbatim>\<open>resolve\<close> and \<^verbatim>\<open>reject\<close> on a settled
  promise do nothing. The three rejections of the source are told apart by their message:
  the timer's, the error listener's (\<^verbatim>\<open>Error TCP\<close>) and the catch block's
  (\<^verbatim>\<open>Error conectando\<close>); the last two carry the message and the code of the socket's error.
\<close>

datatype outcome =
    Success jsstring
  | Timeout int
  | TransportError jsstring jsstring
  | ConnectFailure jsstring jsstring

record options =
  opt_timeout :: "int option"
  opt_encoding :: "jsstring option"
  opt_delimiter :: "jsstring option"

text \<open>
  The state of the pool and its sockets, extended by the variables that the closures of one
  invocation share: the constants of lines 159 to 161, \<^verbatim>\<open>socket\<close>, the two timers (the delay
  of a timer that is armed), \<^verbatim>\<open>responseData\<close>, whether \<^verbatim>\<open>onData\<close> and \<^verbatim>\<open>onError\<close> are
  attached to \<^verbatim>\<open>socket\<close>, the socket whose connect the \<^verbatim>\<open>await\<close> of line 182 is suspended
  on, and the promise.
\<close>

record cmd = world +
  command :: jsstring
  timeout :: int
  encoding :: jsstring
  delimiter :: jsstring
  socket :: "sock option"
  timeoutId :: "int option"
  graceId :: "int option"
  responseData :: jsstring
  onData_attached :: bool
  onError_attached :: bool
  awaiting :: "sock option"
  promise :: "outcome option"

definition settle :: "outcome \<Rightarrow> cmd \<Rightarrow> cmd" where
  "settle r st = (if promise st = None then st\<lparr>promise := Some r\<rparr> else st)"

text \<open>Lines 183 to 225: what runs once the \<^verbatim>\<open>await\<close> has the socket.\<close>

definition after_await :: "sock \<Rightarrow> cmd \<Rightarrow> cmd" where
  "after_await s st =
     (let commandToSend = command st @ or_string (Some (delimiter st)) [];
          st1 = st\<lparr>awaiting := None, socket := Some s,
                   onData_attached := True, onError_attached := True,
                   wire := wire st @ [(s, commandToSend)]\<rparr>
      in if delimiter st = [] then st1\<lparr>graceId := Some (min (timeout st) 1000)\<rparr> else st1)"

text \<open>Lines 227 to 231: the \<^verbatim>\<open>await\<close> threw the error of the connect attempt.\<close>

definition catch_block :: "jsstring \<Rightarrow> jsstring \<Rightarrow> cmd \<Rightarrow> cmd" where
  "catch_block msg code st = settle (ConnectFailure msg code) (st\<lparr>awaiting := None, timeoutId := None\<rparr>)"

text \<open>Lines 172 to 178: the callback of the timeout timer.\<close>

definition timeout_cb :: "cmd \<Rightarrow> cmd" where
  "timeout_cb st =
     (let st1 = st\<lparr>timeoutId := None\<rparr>;
          st2 = (case socket st1 of
                   Some s \<Rightarrow> if s \<notin> destroyed st1 then destroy s st1 else st1
                 | None \<Rightarrow> st1)
      in settle (Timeout (timeout st)) st2)"

text \<open>Lines 186 to 198. The chunk is the text that \<^verbatim>\<open>data.toString(encoding)\<close> gives.\<close>

definition onData :: "jsstring \<Rightarrow> cmd \<Rightarrow> cmd" where
  "onData chunk st =
     (let st1 = st\<lparr>responseData := responseData st @ chunk\<rparr> in
      if delimiter st1 \<noteq> [] \<and> str_includes (responseData st1) (delimiter st1)
      then settle (Success (trim (responseData st1)))
             (st1\<lparr>timeoutId := None, onData_attached := False, onError_attached := False\<rparr>)
      else st1)"

text \<open>Lines 200 to 205.\<close>

definition onError :: "jsstring \<Rightarrow> jsstring \<Rightarrow> cmd \<Rightarrow> cmd" where
  "onError msg code st =
     settle (TransportError msg code) (st\<lparr>timeoutId := None, onData_attached := False\<rparr>)"

text \<open>Lines 218 to 224: the callback of the timer armed when there is no delimiter.\<close>

definition grace_cb :: "cmd \<Rightarrow> cmd" where
  "grace_cb st =
     settle (Success (responseData st))
       (st\<lparr>graceId := None, timeoutId := None, onData_attached := False, onError_attached := False\<rparr>)"

text \<open>
  Lines 158 to 182, up to the \<^verbatim>\<open>await\<close>: the constants, the timer, then the pool. A stored
  connection resumes the function before any event can come in; a new one leaves it
  suspended. \<open>this_t\<close> is the field \<^verbatim>\<open>this.timeout\<close> that the constructor has set (line 50).
\<close>

definition arm_timeout :: "jsstring \<Rightarrow> options \<Rightarrow> int \<Rightarrow> world \<Rightarrow> cmd" where
  "arm_timeout cmnd opts this_t w =
     (let t = or_number (opt_timeout opts) this_t in
      \<lparr>connections = connections w, nsocks = nsocks w, sock_key = sock_key w,
       connecting = connecting w, destroyed = destroyed w, wire = wire w,
       command = cmnd,
       timeout = t,
       encoding = or_string (opt_encoding opts) (js ''utf8''),
       delimiter = or_string (opt_delimiter opts) [0x0A],
       socket = None, timeoutId = Some t, graceId = None, responseData = [],
       onData_attached = False, onError_attached = False, awaiting = None, promise = None\<rparr>)"

definition acquire :: "jsstring \<Rightarrow> nat \<Rightarrow> cmd \<Rightarrow> cmd" where
  "acquire host port st =
     (case getConnection host port st of
        (Existing conn, st1) \<Rightarrow> after_await conn st1
      | (Pending s, st1) \<Rightarrow> st1\<lparr>awaiting := Some s\<rparr>)"

definition sendTCPCommand :: "jsstring \<Rightarrow> nat \<Rightarrow> jsstring \<Rightarrow> options \<Rightarrow> int \<Rightarrow> world \<Rightarrow> cmd" where
  "sendTCPCommand host port cmnd opts this_t w = acquire host port (arm_timeout cmnd opts this_t w)"


section \<open>Events\<close>

text \<open>
  What the event loop can deliver while the invocation is alive: the connect callback of a
  socket, its error (with message and code; Node has destroyed the socket by then), its
  close, a chunk of data, and the two timers. An event nobody listens to changes nothing;
  a timer fires only while it is armed.
\<close>

datatype event =
    Connect sock
  | Error sock jsstring jsstring
  | Close sock
  | Data sock jsstring
  | TimeoutFires
  | GraceFires

definition ev_connect :: "sock \<Rightarrow> cmd \<Rightarrow> cmd" where
  "ev_connect s st =
     (if s < nsocks st \<and> s \<in> connecting st then
        (let st1 = on_connect s st in
         if awaiting st1 = Some s then after_await s st1 else st1)
      else st)"

definition ev_error :: "sock \<Rightarrow> jsstring \<Rightarrow> jsstring \<Rightarrow> cmd \<Rightarrow> cmd" where
  "ev_error s msg code st =
     (if s < nsocks st then
        (let st1 = sock_error s st;
             st2 = (if awaiting st1 = Some s then catch_block msg code st1 else st1)
         in if onError_attached st2 \<and> socket st2 = Some s then onError msg code st2 else st2)
      else st)"

definition ev_close :: "sock \<Rightarrow> cmd \<Rightarrow> cmd" where
  "ev_close s st =
     (if s < nsocks st then sock_close s st else st)"

definition ev_data :: "sock \<Rightarrow> jsstring \<Rightarrow> cmd \<Rightarrow> cmd" where
  "ev_data s chunk st = (if onData_attached st \<and> socket st = Some s then onData chunk st else st)"

fun step :: "event \<Rightarrow> cmd \<Rightarrow> cmd" where
  "step (Connect s) st = ev_connect s st"
| "step (Error s msg code) st = ev_error s msg code st"
| "step (Close s) st = ev_close s st"
| "step (Data s chunk) st = ev_data s chunk st"
| "step TimeoutFires st = (if timeoutId st \<noteq> None then timeout_cb st else st)"
| "step GraceFires st = (if graceId st \<noteq> None then grace_cb st else st)"

fun run :: "event list \<Rightarrow> cmd \<Rightarrow> cmd" where
  "run [] st = st"
| "run (e # es) st = run es (step e st)"

text \<open>A new adapter: an empty pool and no socket yet.\<close>

definition new_pool :: world where
  "new_pool = \<lparr>connections = [], nsocks = 0, sock_key = (\<lambda>_. []), connecting = {},
               destroyed = {}, wire = []\<rparr>"

text \<open>
  What holds of an invocation for the key \<open>key\<close> from its start on, whatever comes in:
  the pool is in order, the delimiter is not empty and the second timer is not armed, the
  socket in hand and the socket awaited were made for the key, a listener is attached only
  to a socket in hand, the timer is armed while the promise is pending, and a success
  carries the trimmed buffer, which holds the delimiter and no longer grows.
\<close>

definition cmd_ok :: "jsstring \<Rightarrow> cmd \<Rightarrow> bool" where
  "cmd_ok key st \<longleftrightarrow>
     pool_ok st \<and> delimiter st \<noteq> [] \<and> graceId st = None \<and>
     (\<forall>s. socket st = Some s \<longrightarrow> s < nsocks st \<and> sock_key st s = key \<and> awaiting st = None) \<and>
     (\<forall>s. awaiting st = Some s \<longrightarrow> s < nsocks st \<and> sock_key st s = key) \<and>
     (onData_attached st \<longrightarrow> socket st \<noteq> None) \<and>
     (promise st = None \<longrightarrow> timeoutId st \<noteq> None) \<and>
     (\<forall>r. promise st = Some (Success r) \<longrightarrow>
        r = trim (responseData st) \<and> str_includes (responseData st) (delimiter st) \<and>
        \<not> onData_attached st \<and> socket st \<noteq> None)"



text \<open>Inputs of the examples: a host, no options, and a delimiter that is not white space.\<close>

definition localhost :: jsstring where
  "localhost = js ''localhost''"

definition no_options :: options where
  "no_options = \<lparr>opt_timeout = None, opt_encoding = None, opt_delimiter = None\<rparr>"


text \<open>
  What may happen between two calls of \<^verbatim>\<open>getConnection\<close> for the key \<open>k\<close> without touching
  its OPEN entry, the socket \<open>c\<close>: any acquisition, the connect or the close of a socket
  made for another key, the error or the destruction of another socket. The connect and
  the close of any socket made for \<open>k\<close> write to the slot of \<open>k\<close>, and stopping the adapter
  empties the pool.
\<close>

fun quiet :: "jsstring \<Rightarrow> sock \<Rightarrow> pool_event \<Rightarrow> world \<Rightarrow> bool" where
  "quiet k c (Acquire host port) w = True"
| "quiet k c (SockConnect s) w = (sock_key w s \<noteq> k)"
| "quiet k c (SockError s) w = (s \<noteq> c)"
| "quiet k c (SockClose s) w = (s \<noteq> c \<and> sock_key w s \<noteq> k)"
| "quiet k c (Destroy s) w = (s \<noteq> c)"
| "quiet k c CloseAll w = False"

fun undisturbed :: "jsstring \<Rightarrow> sock \<Rightarrow> pool_event list \<Rightarrow> world \<Rightarrow> bool" where
  "undisturbed k c [] w = True"
| "undisturbed k c (e # es) w = (quiet k c e w \<and> undisturbed k c es (pool_step e w))"

definition otherhost :: jsstring where
  "otherhost = js ''otherhost''"


section \<open>Unfolding\<close>

lemmas handler_defs = after_await_def catch_block_def timeout_cb_def onData_def onError_def
  grace_cb_def settle_def ev_connect_def ev_error_def ev_close_def ev_data_def
  on_connect_def on_close_def destroy_def sock_error_def sock_close_def

lemmas start_defs = sendTCPCommand_def arm_timeout_def acquire_def getConnection_def
  createConnection_def

lemmas eval_defs = sendTCPCommand_def arm_timeout_def acquire_def getConnection_def
  createConnection_def after_await_def catch_block_def timeout_cb_def onData_def onError_def
  grace_cb_def settle_def ev_connect_def ev_error_def ev_close_def ev_data_def
  on_connect_def on_close_def destroy_def sock_error_def sock_close_def closeAll_def
  Map_get_def Map_set_def Map_delete_def Map_keys_def or_number_def or_string_def new_pool_def
  open_entry_def open_entries_def no_options_def Let_def


section \<open>The Map of the pool\<close>

lemma Map_keys_delete: "set (Map_keys (Map_delete k m)) = set (Map_keys m) - {k}"
  by (auto simp: Map_keys_def Map_delete_def AList.delete_eq)

lemma distinct_Map_delete: "distinct (Map_keys m) \<Longrightarrow> distinct (Map_keys (Map_delete k m))"
  by (simp add: Map_keys_def Map_delete_def distinct_delete)

lemma set_Map_delete: "set (Map_delete k m) \<subseteq> set m"
  by (auto simp: Map_delete_def AList.delete_eq)

lemma distinct_Map_set: "distinct (Map_keys m) \<Longrightarrow> distinct (Map_keys (Map_set k v m))"
  by (simp add: Map_keys_def Map_set_def distinct_update)

lemma set_Map_set: "set (Map_set k v m) \<subseteq> insert (k, v) (set m)"
  unfolding Map_set_def by (induction m) auto

lemma Map_get_set: "Map_get k (Map_set k v m) = Some v"
  by (simp add: Map_get_def Map_set_def update_conv')

lemma Map_get_delete: "Map_get k (Map_delete k m) = None"
  by (simp add: Map_get_def Map_delete_def delete_conv)

lemma Map_get_in_set: "Map_get k m = Some v \<Longrightarrow> (k, v) \<in> set m"
  by (simp add: Map_get_def map_of_SomeD)

lemma set_update_distinct:
  "distinct (map fst m) \<Longrightarrow> set (AList.update k v m) = insert (k, v) {e \<in> set m. fst e \<noteq> k}"
  by (induction m) (auto simp: image_iff)

lemma Map_set_twice:
  assumes "distinct (Map_keys m)"
  shows "set (Map_set k b (Map_set k a m)) = insert (k, b) {e \<in> set m. fst e \<noteq> k}"
proof -
  have d: "distinct (map fst (AList.update k a m))"
    using assms by (simp add: Map_keys_def distinct_update)
  show ?thesis
    using assms by (auto simp: Map_set_def Map_keys_def set_update_distinct [OF d] set_update_distinct)
qed


section \<open>The pool stays in order\<close>

lemma pool_ok_createConnection: "pool_ok w \<Longrightarrow> pool_ok (snd (createConnection k w))"
  by (auto simp: pool_ok_def createConnection_def Let_def less_Suc_eq)

lemma pool_ok_delete:
  "pool_ok w \<Longrightarrow> pool_ok (w\<lparr>connections := Map_delete k (connections w)\<rparr>)"
  using set_Map_delete [of k "connections w"]
  by (auto simp: pool_ok_def distinct_Map_delete)

lemma pool_ok_getConnection: "pool_ok w \<Longrightarrow> pool_ok (snd (getConnection host port w))"
  by (simp add: getConnection_def Let_def pool_ok_createConnection pool_ok_delete
      split: option.split)

lemma pool_ok_on_connect: "pool_ok w \<Longrightarrow> s < nsocks w \<Longrightarrow> pool_ok (on_connect s w)"
  using set_Map_set [of "sock_key w s" s "connections w"]
  by (auto simp: pool_ok_def on_connect_def distinct_Map_set)

lemma pool_ok_on_close: "pool_ok w \<Longrightarrow> pool_ok (on_close s w)"
  using pool_ok_delete [of w "sock_key w s"] by (simp add: on_close_def)

lemma pool_ok_destroy: "pool_ok w \<Longrightarrow> pool_ok (destroy s w)"
  by (simp add: pool_ok_def destroy_def)

lemma pool_ok_sock_error: "pool_ok w \<Longrightarrow> pool_ok (sock_error s w)"
  by (simp add: pool_ok_def sock_error_def)

lemma pool_ok_sock_close: "pool_ok w \<Longrightarrow> pool_ok (sock_close s w)"
  using set_Map_delete [of "sock_key w s" "connections w"]
  by (auto simp: pool_ok_def sock_close_def on_close_def distinct_Map_delete)

lemma pool_ok_closeAll: "pool_ok (closeAll w)"
  by (simp add: pool_ok_def closeAll_def Map_keys_def)

lemma pool_ok_new_pool: "pool_ok new_pool"
  by (simp add: pool_ok_def new_pool_def Map_keys_def)

lemma pool_ok_pool_step: "pool_ok w \<Longrightarrow> pool_ok (pool_step e w)"
  by (cases e)
     (simp_all add: pool_ok_getConnection pool_ok_on_connect pool_ok_sock_error
        pool_ok_sock_close pool_ok_destroy pool_ok_closeAll)

lemma pool_ok_pool_run: "pool_ok w \<Longrightarrow> pool_ok (pool_run es w)"
  by (induction es arbitrary: w) (simp_all add: pool_ok_pool_step)

lemma filter_key_le_1: "distinct (map fst m) \<Longrightarrow> length (filter (\<lambda>e. fst e = k \<and> P e) m) \<le> 1"
proof (induction m)
  case Nil
  then show ?case by simp
next
  case (Cons a m)
  have "fst a = k \<Longrightarrow> filter (\<lambda>e. fst e = k \<and> P e) m = []"
    using Cons.prems by (force simp: filter_empty_conv image_iff)
  with Cons show ?case by auto
qed

lemma open_entries_le_1: "pool_ok w \<Longrightarrow> length (open_entries k w) \<le> 1"
  using filter_key_le_1 [of "connections w" k "\<lambda>e. snd e \<notin> destroyed w"]
  by (simp add: pool_ok_def open_entries_def Map_keys_def)

lemma closed_key_gone: "sock_key w s \<notin> set (Map_keys (connections (sock_close s w)))"
  by (simp add: sock_close_def on_close_def Map_keys_delete)

lemma getConnection_fresh:
  assumes "open_entry (mk_key host port) w = None"
  shows "\<exists>m. set m \<subseteq> set (connections w) \<and> Map_get (mk_key host port) m = None \<and>
           (distinct (Map_keys (connections w)) \<longrightarrow> distinct (Map_keys m)) \<and>
           getConnection host port w =
             (Pending (nsocks w),
              w\<lparr>connections := m, nsocks := Suc (nsocks w),
                sock_key := (sock_key w)(nsocks w := mk_key host port),
                connecting := insert (nsocks w) (connecting w),
                destroyed := destroyed w - {nsocks w}\<rparr>)"
proof (cases "Map_get (mk_key host port) (connections w)")
  case None
  then show ?thesis
    by (intro exI [of _ "connections w"]) (simp add: getConnection_def createConnection_def Let_def)
next
  case (Some conn)
  with assms have "conn \<in> destroyed w" by (simp add: open_entry_def split: if_splits)
  with Some show ?thesis
    using set_Map_delete [of "mk_key host port" "connections w"]
    by (intro exI [of _ "Map_delete (mk_key host port) (connections w)"])
       (simp add: getConnection_def createConnection_def Let_def Map_get_delete distinct_Map_delete)
qed

lemma open_entry_None_iff:
  "(\<exists>s. fst (getConnection host port w) = Pending s) \<longleftrightarrow> open_entry (mk_key host port) w = None"
  by (auto simp: getConnection_def createConnection_def open_entry_def Let_def split: option.splits)

lemma open_entry_Some:
  "open_entry (mk_key host port) w = Some conn \<Longrightarrow> getConnection host port w = (Existing conn, w)"
  by (auto simp: getConnection_def open_entry_def Let_def split: option.splits if_splits)

lemma Map_get_delete_other: "k' \<noteq> k \<Longrightarrow> Map_get k (Map_delete k' m) = Map_get k m"
  by (simp add: Map_get_def Map_delete_def delete_conv)

lemma Map_get_set_other: "k' \<noteq> k \<Longrightarrow> Map_get k (Map_set k' v m) = Map_get k m"
  by (simp add: Map_get_def Map_set_def update_conv')

lemma open_entry_acquire:
  fixes w :: world
  assumes "open_entry k w = Some c"
  shows "open_entry k (snd (getConnection host port w)) = Some c"
proof (cases "mk_key host port = k")
  case True
  with assms have "getConnection host port w = (Existing c, w)"
    using open_entry_Some by blast
  with assms show ?thesis by simp
next
  case False
  from assms have m: "Map_get k (connections w) = Some c" and d: "c \<notin> destroyed w"
    by (simp_all add: open_entry_def split: option.splits if_splits)
  show ?thesis
    using False m d
    by (auto simp: getConnection_def createConnection_def open_entry_def Let_def
        Map_get_delete_other split: option.splits)
qed

lemma open_entry_quiet_step:
  fixes w :: world
  assumes "open_entry k w = Some c" and "quiet k c e w"
  shows "open_entry k (pool_step e w) = Some c"
proof -
  from assms(1) have m: "Map_get k (connections w) = Some c" and d: "c \<notin> destroyed w"
    by (simp_all add: open_entry_def split: option.splits if_splits)
  show ?thesis
  proof (cases e)
    case (Acquire host port)
    then show ?thesis using open_entry_acquire [OF assms(1)] by simp
  next
    case (SockConnect s)
    then show ?thesis using assms m d
      by (simp add: open_entry_def on_connect_def Map_get_set_other)
  next
    case (SockError s)
    then show ?thesis using assms m d by (simp add: open_entry_def sock_error_def)
  next
    case (SockClose s)
    then show ?thesis using assms m d
      by (simp add: open_entry_def sock_close_def on_close_def Map_get_delete_other)
  next
    case (Destroy s)
    then show ?thesis using assms m d by (simp add: open_entry_def destroy_def)
  next
    case CloseAll
    then show ?thesis using assms(2) by simp
  qed
qed

lemma open_entry_undisturbed:
  fixes w :: world
  shows "open_entry k w = Some c \<Longrightarrow> undisturbed k c es w \<Longrightarrow> open_entry k (pool_run es w) = Some c"
  by (induction es arbitrary: w) (simp_all add: open_entry_quiet_step)

lemma keys_differ: "mk_key otherhost 8080 \<noteq> mk_key localhost 8080"
  by (simp add: mk_key_def otherhost_def localhost_def js_def)

lemma two_connects:
  fixes w :: world
  assumes d: "distinct (Map_keys (connections w))"
    and a: "a < nsocks w" "a \<in> connecting w" "a \<notin> destroyed w" "sock_key w a = k"
    and b: "b < nsocks w" "b \<in> connecting w" "sock_key w b = k"
    and ab: "a \<noteq> b" and fresh: "a \<notin> snd ` set (connections w)"
  shows "Map_get k (connections (pool_run [SockConnect a, SockConnect b] w)) = Some b \<and>
         a \<notin> snd ` set (connections (pool_run [SockConnect a, SockConnect b] w)) \<and>
         a \<notin> destroyed (pool_run [SockConnect a, SockConnect b] w) \<and>
         a \<notin> connecting (pool_run [SockConnect a, SockConnect b] w)"
proof -
  have r: "pool_run [SockConnect a, SockConnect b] w =
      w\<lparr>connecting := connecting w - {a} - {b},
        connections := Map_set k b (Map_set k a (connections w))\<rparr>"
    using a b ab by (simp add: on_connect_def)
  have "a \<notin> snd ` set (Map_set k b (Map_set k a (connections w)))"
    using fresh ab by (auto simp: Map_set_twice [OF d])
  then show ?thesis using a unfolding r by (simp add: Map_get_set)
qed


section \<open>What the events keep\<close>

lemma pool_ok_cong:
  "connections w' = connections w \<Longrightarrow> nsocks w' = nsocks w \<Longrightarrow> sock_key w' = sock_key w \<Longrightarrow>
   pool_ok w' = pool_ok w"
  by (simp add: pool_ok_def)

lemma step_frame:
  "delimiter (step e st) = delimiter st" "timeout (step e st) = timeout st"
  "command (step e st) = command st"
  "nsocks (step e st) = nsocks st" "sock_key (step e st) = sock_key st"
  by (cases e; simp add: handler_defs Let_def split: option.split)+

lemma run_frame:
  "delimiter (run es st) = delimiter st" "timeout (run es st) = timeout st"
  "command (run es st) = command st"
  "nsocks (run es st) = nsocks st" "sock_key (run es st) = sock_key st"
  by (induction es arbitrary: st; simp add: step_frame)+

lemma or_string_nonempty: "b \<noteq> [] \<Longrightarrow> or_string a b \<noteq> []"
  by (simp add: or_string_def split: option.split)

lemma pool_ok_step: "pool_ok st \<Longrightarrow> pool_ok (step e st)"
proof (cases e)
  case (Connect s)
  show "pool_ok st \<Longrightarrow> pool_ok (step e st)"
    using pool_ok_on_connect [of st s]
    by (simp add: Connect ev_connect_def after_await_def Let_def pool_ok_def)
next
  case (Error s m c)
  then show "pool_ok st \<Longrightarrow> pool_ok (step e st)"
    by (simp add: handler_defs Let_def pool_ok_def)
next
  case (Close s)
  then show "pool_ok st \<Longrightarrow> pool_ok (step e st)"
    by (simp add: ev_close_def pool_ok_sock_close)
next
  case (Data s ch)
  then show "pool_ok st \<Longrightarrow> pool_ok (step e st)"
    by (simp add: handler_defs Let_def pool_ok_def)
next
  case TimeoutFires
  then show "pool_ok st \<Longrightarrow> pool_ok (step e st)"
    by (simp add: handler_defs Let_def pool_ok_def split: option.split)
next
  case GraceFires
  then show "pool_ok st \<Longrightarrow> pool_ok (step e st)"
    by (simp add: handler_defs Let_def pool_ok_def)
qed

lemma cmd_ok_step: "cmd_ok key st \<Longrightarrow> cmd_ok key (step e st)"
proof -
  assume ok: "cmd_ok key st"
  then have p: "pool_ok (step e st)" by (simp add: cmd_ok_def pool_ok_step)
  from ok have rest: "delimiter st \<noteq> []" "graceId st = None"
     "\<forall>s. socket st = Some s \<longrightarrow> s < nsocks st \<and> sock_key st s = key \<and> awaiting st = None"
     "\<forall>s. awaiting st = Some s \<longrightarrow> s < nsocks st \<and> sock_key st s = key"
     "onData_attached st \<longrightarrow> socket st \<noteq> None"
     "promise st = None \<longrightarrow> timeoutId st \<noteq> None"
     "\<forall>r. promise st = Some (Success r) \<longrightarrow>
        r = trim (responseData st) \<and> str_includes (responseData st) (delimiter st) \<and>
        \<not> onData_attached st \<and> socket st \<noteq> None"
    by (simp_all add: cmd_ok_def)
  have "delimiter (step e st) \<noteq> [] \<and> graceId (step e st) = None \<and>
     (\<forall>s. socket (step e st) = Some s \<longrightarrow> s < nsocks (step e st) \<and> sock_key (step e st) s = key \<and> awaiting (step e st) = None) \<and>
     (\<forall>s. awaiting (step e st) = Some s \<longrightarrow> s < nsocks (step e st) \<and> sock_key (step e st) s = key) \<and>
     (onData_attached (step e st) \<longrightarrow> socket (step e st) \<noteq> None) \<and>
     (promise (step e st) = None \<longrightarrow> timeoutId (step e st) \<noteq> None) \<and>
     (\<forall>r. promise (step e st) = Some (Success r) \<longrightarrow>
        r = trim (responseData (step e st)) \<and> str_includes (responseData (step e st)) (delimiter (step e st)) \<and>
        \<not> onData_attached (step e st) \<and> socket (step e st) \<noteq> None)"
    using rest
    by (cases e) (auto simp: handler_defs Let_def split: option.splits)
  with p show ?thesis by (simp add: cmd_ok_def)
qed

lemma cmd_ok_run: "cmd_ok key st \<Longrightarrow> cmd_ok key (run es st)"
  by (induction es arbitrary: st) (simp_all add: cmd_ok_step)

lemma pool_ok_arm_timeout: "pool_ok (arm_timeout c opts t w) = pool_ok w"
  by (simp add: pool_ok_def arm_timeout_def Let_def)

lemma cmd_ok_acquire:
  assumes "pool_ok st" "delimiter st \<noteq> []" "graceId st = None" "socket st = None"
    "awaiting st = None" "\<not> onData_attached st" "promise st = None" "timeoutId st \<noteq> None"
  shows "cmd_ok (mk_key host port) (acquire host port st)"
proof (cases "open_entry (mk_key host port) st")
  case None
  then have g: "getConnection host port st =
      createConnection (mk_key host port) st \<or>
    getConnection host port st =
      createConnection (mk_key host port)
        (st\<lparr>connections := Map_delete (mk_key host port) (connections st)\<rparr>)"
    by (simp add: open_entry_def getConnection_def Let_def split: option.splits if_splits)
  have p: "pool_ok (snd (getConnection host port st))"
    using assms(1) by (rule pool_ok_getConnection)
  from g show ?thesis
  proof
    assume e: "getConnection host port st = createConnection (mk_key host port) st"
    from p show ?thesis using assms
      by (simp add: e acquire_def createConnection_def Let_def cmd_ok_def pool_ok_def)
  next
    assume e: "getConnection host port st = createConnection (mk_key host port)
        (st\<lparr>connections := Map_delete (mk_key host port) (connections st)\<rparr>)"
    from p show ?thesis using assms
      by (simp add: e acquire_def createConnection_def Let_def cmd_ok_def pool_ok_def)
  qed
next
  case (Some conn)
  then have g: "getConnection host port st = (Existing conn, st)"
    and m: "Map_get (mk_key host port) (connections st) = Some conn"
    by (simp_all add: open_entry_def getConnection_def Let_def split: option.splits if_splits)
  from m have "(mk_key host port, conn) \<in> set (connections st)" by (rule Map_get_in_set)
  with assms(1) have "conn < nsocks st \<and> sock_key st conn = mk_key host port"
    by (auto simp: pool_ok_def)
  then show ?thesis using assms
    by (simp add: g acquire_def after_await_def Let_def cmd_ok_def pool_ok_def)
qed

lemma cmd_ok_sendTCPCommand:
  "pool_ok w \<Longrightarrow> cmd_ok (mk_key host port) (sendTCPCommand host port c opts t w)"
  unfolding sendTCPCommand_def
  by (rule cmd_ok_acquire)
     (simp_all add: pool_ok_arm_timeout, simp_all add: arm_timeout_def Let_def or_string_nonempty)

lemma cmd_ok_reachable:
  "pool_ok w \<Longrightarrow> cmd_ok (mk_key host port) (run es (sendTCPCommand host port c opts t w))"
  by (simp add: cmd_ok_run cmd_ok_sendTCPCommand)

lemma acquire_frame:
  "delimiter (acquire host port st) = delimiter st" "timeout (acquire host port st) = timeout st"
  "timeoutId (acquire host port st) = timeoutId st" "promise (acquire host port st) = promise st"
  by (simp_all add: acquire_def getConnection_def createConnection_def after_await_def Let_def
      split: option.split)

lemma sendTCPCommand_consts:
  "delimiter (sendTCPCommand host port c opts t w) = or_string (opt_delimiter opts) [0x0A]"
  "timeout (sendTCPCommand host port c opts t w) = or_number (opt_timeout opts) t"
  "timeoutId (sendTCPCommand host port c opts t w) = Some (or_number (opt_timeout opts) t)"
  "promise (sendTCPCommand host port c opts t w) = None"
  by (simp_all add: sendTCPCommand_def acquire_frame, simp_all add: arm_timeout_def Let_def)

lemma promise_step: "promise st = Some r \<Longrightarrow> promise (step e st) = Some r"
  by (cases e) (auto simp: handler_defs Let_def split: option.splits)

lemma promise_run: "promise st = Some r \<Longrightarrow> promise (run es st) = Some r"
  by (induction es arbitrary: st) (simp_all add: promise_step)

lemma pending_armed_step:
  "(promise st = None \<longrightarrow> timeoutId st \<noteq> None) \<Longrightarrow>
   (promise (step e st) = None \<longrightarrow> timeoutId (step e st) \<noteq> None)"
  by (cases e) (auto simp: handler_defs Let_def split: option.splits if_splits)

lemma pending_armed_run:
  "(promise st = None \<longrightarrow> timeoutId st \<noteq> None) \<Longrightarrow>
   promise (run es st) = None \<Longrightarrow> timeoutId (run es st) \<noteq> None"
proof (induction es arbitrary: st)
  case Nil
  then show ?case by simp
next
  case (Cons e es)
  have "promise (step e st) = None \<longrightarrow> timeoutId (step e st) \<noteq> None"
    using Cons.prems(1) by (rule pending_armed_step)
  then show ?case using Cons.IH [of "step e st"] Cons.prems(2) by simp
qed

lemma timeout_settles:
  "promise st = None \<Longrightarrow> timeoutId st \<noteq> None \<Longrightarrow>
   promise (step TimeoutFires st) = Some (Timeout (timeout st))"
  by (simp add: timeout_cb_def settle_def destroy_def Let_def split: option.split)

lemma awaiting_step:
  "awaiting (step e st) = Some s \<Longrightarrow> awaiting st = Some s \<and> wire (step e st) = wire st"
  by (cases e) (auto simp: handler_defs Let_def split: option.splits if_splits)

lemma awaiting_run:
  "awaiting (run es st) = Some s \<Longrightarrow> awaiting st = Some s \<and> wire (run es st) = wire st"
proof (induction es arbitrary: st)
  case Nil
  then show ?case by simp
next
  case (Cons e es)
  from Cons.IH [of "step e st"] Cons.prems
  have "awaiting (step e st) = Some s" "wire (run es (step e st)) = wire (step e st)" by simp_all
  then show ?case using awaiting_step [of e st s] by simp
qed

lemma no_socket_step:
  "(awaiting st \<noteq> None \<longrightarrow> socket st = None) \<Longrightarrow>
   (awaiting (step e st) \<noteq> None \<longrightarrow> socket (step e st) = None)"
  by (cases e) (auto simp: handler_defs Let_def split: option.splits if_splits)

lemma no_socket_run:
  "(awaiting st \<noteq> None \<longrightarrow> socket st = None) \<Longrightarrow>
   awaiting (run es st) \<noteq> None \<Longrightarrow> socket (run es st) = None"
proof (induction es arbitrary: st)
  case Nil
  then show ?case by simp
next
  case (Cons e es)
  have "awaiting (step e st) \<noteq> None \<longrightarrow> socket (step e st) = None"
    using Cons.prems(1) by (rule no_socket_step)
  then show ?case using Cons.IH [of "step e st"] Cons.prems(2) by simp
qed

lemma sendTCPCommand_wire:
  "awaiting (sendTCPCommand host port c opts t w) = Some s \<Longrightarrow>
   wire (sendTCPCommand host port c opts t w) = wire w \<and>
   socket (sendTCPCommand host port c opts t w) = None"
  by (auto simp: start_defs after_await_def Let_def split: option.splits if_splits)

lemma timeout_cb_no_socket:
  "socket st = None \<Longrightarrow>
   wire (timeout_cb st) = wire st \<and> destroyed (timeout_cb st) = destroyed st \<and>
   connections (timeout_cb st) = connections st \<and> socket (timeout_cb st) = None"
  by (simp add: timeout_cb_def settle_def Let_def)

lemma timeout_cb_socket:
  "socket st = Some s \<Longrightarrow>
   s \<in> destroyed (timeout_cb st) \<and> nsocks (timeout_cb st) = nsocks st \<and>
   sock_key (timeout_cb st) = sock_key st"
  by (simp add: timeout_cb_def settle_def destroy_def Let_def)


section \<open>The claims\<close>

text \<open>
  Claim C1. With the delimiter option set to the empty string and a silent peer, the claim
  expects the command to resolve with an empty result once the grace period is over. Line
  161 replaces an empty delimiter by a newline, so the branch of lines 216 to 225 is never
  taken: the effective delimiter is a newline, the second timer is never armed whatever
  comes in, a newline is appended to the command, and the command ends in the timeout.
\<close>

theorem empty_delimiter_times_out:
  "delimiter (sendTCPCommand host port c
      \<lparr>opt_timeout = Some 3000, opt_encoding = None, opt_delimiter = Some []\<rparr> 5000 new_pool) = [0x0A] \<and>
   graceId (run es (sendTCPCommand host port c
      \<lparr>opt_timeout = Some 3000, opt_encoding = None, opt_delimiter = Some []\<rparr> 5000 new_pool)) = None \<and>
   (let st = run [Connect 0, GraceFires, TimeoutFires]
      (sendTCPCommand host port c
         \<lparr>opt_timeout = Some 3000, opt_encoding = None, opt_delimiter = Some []\<rparr> 5000 new_pool)
    in wire st = [(0, c @ [0x0A])] \<and> promise st = Some (Timeout 3000))"
proof -
  have "cmd_ok (mk_key host port) (run es (sendTCPCommand host port c
      \<lparr>opt_timeout = Some 3000, opt_encoding = None, opt_delimiter = Some []\<rparr> 5000 new_pool))"
    by (rule cmd_ok_reachable [OF pool_ok_new_pool])
  then have "graceId (run es (sendTCPCommand host port c
      \<lparr>opt_timeout = Some 3000, opt_encoding = None, opt_delimiter = Some []\<rparr> 5000 new_pool)) = None"
    by (simp add: cmd_ok_def)
  then show ?thesis by (simp add: eval_defs)
qed

text \<open>
  Claim C2. The claim expects both listeners removed and the timer cancelled on every exit
  path. After a connection error the timer is cancelled and \<open>onData\<close> is removed, yet
  \<open>onError\<close> stays attached; after the timeout both listeners stay attached to the
  destroyed socket; only the delimiter match removes both.
\<close>

theorem error_path_leaves_listener:
  "(let st = run [Connect 0, Error 0 msg code]
               (sendTCPCommand host port c no_options 5000 new_pool)
    in promise st = Some (TransportError msg code) \<and> timeoutId st = None \<and>
       \<not> onData_attached st \<and> onError_attached st) \<and>
   (let st = run [Connect 0, TimeoutFires]
               (sendTCPCommand host port c no_options 5000 new_pool)
    in promise st = Some (Timeout 5000) \<and> timeoutId st = None \<and> 0 \<in> destroyed st \<and>
       onData_attached st \<and> onError_attached st) \<and>
   (let st = run [Connect 0, Data 0 (js ''STATUS_OK'' @ [0x0A])]
               (sendTCPCommand host port c no_options 5000 new_pool)
    in promise st = Some (Success (js ''STATUS_OK'')) \<and> timeoutId st = None \<and>
       \<not> onData_attached st \<and> \<not> onError_attached st)"
  by (simp add: eval_defs js_def trim_def isWhiteSpace_def)




text \<open>
  Claim C4, as amended. An invocation produces one outcome out of success, timeout,
  transport error and connect failure: as long as the promise is pending the timeout
  timer is armed, and its firing rejects with the timeout; once the promise has an
  outcome, no later event replaces it.
\<close>

theorem one_outcome:
  "(promise (run es (sendTCPCommand host port c opts t w)) = None \<longrightarrow>
      timeoutId (run es (sendTCPCommand host port c opts t w)) \<noteq> None \<and>
      promise (step TimeoutFires (run es (sendTCPCommand host port c opts t w)))
        = Some (Timeout (or_number (opt_timeout opts) t))) \<and>
   (promise (run es (sendTCPCommand host port c opts t w)) = Some r \<longrightarrow>
      promise (run es' (run es (sendTCPCommand host port c opts t w))) = Some r)"
proof (intro conjI impI)
  let ?st = "run es (sendTCPCommand host port c opts t w)"
  assume p: "promise ?st = None"
  show a: "timeoutId ?st \<noteq> None"
    by (rule pending_armed_run [OF _ p]) (simp add: sendTCPCommand_consts)
  show "promise (step TimeoutFires ?st) = Some (Timeout (or_number (opt_timeout opts) t))"
    using timeout_settles [OF p a] by (simp add: run_frame sendTCPCommand_consts)
next
  assume "promise (run es (sendTCPCommand host port c opts t w)) = Some r"
  then show "promise (run es' (run es (sendTCPCommand host port c opts t w))) = Some r"
    by (rule promise_run)
qed

text \<open>
  The theorem at work: a fresh invocation is pending and the timer ends it; a success
  stays a success through more data, an error, the timer and the close.
\<close>

theorem one_outcome_witness:
  "promise (run [] (sendTCPCommand localhost 8080 (js ''GET_STATUS'') no_options 5000 new_pool)) = None \<and>
   promise (step TimeoutFires (run [] (sendTCPCommand localhost 8080 (js ''GET_STATUS'') no_options 5000 new_pool)))
     = Some (Timeout 5000) \<and>
   promise (run [Connect 0, Data 0 (js ''STATUS_OK'' @ [0x0A])]
     (sendTCPCommand localhost 8080 (js ''GET_STATUS'') no_options 5000 new_pool))
     = Some (Success (js ''STATUS_OK'')) \<and>
   promise (run [Data 0 (js ''MORE'' @ [0x0A]), Error 0 (js ''read ECONNRESET'') (js ''ECONNRESET''),
                 TimeoutFires, Close 0]
     (run [Connect 0, Data 0 (js ''STATUS_OK'' @ [0x0A])]
       (sendTCPCommand localhost 8080 (js ''GET_STATUS'') no_options 5000 new_pool)))
     = Some (Success (js ''STATUS_OK''))"
  using one_outcome [of "[]" localhost 8080 "js ''GET_STATUS''" no_options 5000 new_pool]
    one_outcome [of "[Connect 0, Data 0 (js ''STATUS_OK'' @ [0x0A])]" localhost 8080 "js ''GET_STATUS''"
      no_options 5000 new_pool "Success (js ''STATUS_OK'')"
      "[Data 0 (js ''MORE'' @ [0x0A]), Error 0 (js ''read ECONNRESET'') (js ''ECONNRESET''),
                 TimeoutFires, Close 0]"]
  by (simp add: eval_defs js_def trim_def isWhiteSpace_def)

text \<open>
  Claim C4 as it is stated fails: when the connect attempt fails, the catch block of lines
  227 to 231 rejects with the message \<^verbatim>\<open>Error conectando\<close>, which is none of success,
  timeout and transport error.
\<close>

theorem connect_failure_outcome:
  "promise (run [Error 0 (js ''connect ECONNREFUSED'') (js ''ECONNREFUSED'')]
     (sendTCPCommand localhost 8080 (js ''GET_STATUS'') no_options 5000 new_pool))
     = Some (ConnectFailure (js ''connect ECONNREFUSED'') (js ''ECONNREFUSED'')) \<and>
   (\<forall>r. promise (run [Error 0 (js ''connect ECONNREFUSED'') (js ''ECONNREFUSED'')]
     (sendTCPCommand localhost 8080 (js ''GET_STATUS'') no_options 5000 new_pool)) \<noteq> Some (Success r)) \<and>
   (\<forall>ms. promise (run [Error 0 (js ''connect ECONNREFUSED'') (js ''ECONNREFUSED'')]
     (sendTCPCommand localhost 8080 (js ''GET_STATUS'') no_options 5000 new_pool)) \<noteq> Some (Timeout ms)) \<and>
   (\<forall>m k. promise (run [Error 0 (js ''connect ECONNREFUSED'') (js ''ECONNREFUSED'')]
     (sendTCPCommand localhost 8080 (js ''GET_STATUS'') no_options 5000 new_pool))
       \<noteq> Some (TransportError m k))"
  by (simp add: eval_defs)

text \<open>
  Claim C5, as amended. While the entry of a key is OPEN, \<^verbatim>\<open>getConnection\<close> hands back the
  stored socket and changes nothing, and a later call hands back the same socket provided
  that in between that socket has no error and is not destroyed, no socket made for the
  same key connects or closes, and the adapter is not stopped; acquisitions and the events
  of sockets made for other keys may come in. A new socket is created exactly when the key
  has no OPEN entry at the call; it is the next fresh socket, and the connect callback of a
  socket stores it under its key whatever the pool holds for that key by then.
\<close>

theorem acquire_reuses_undisturbed:
  fixes w :: world
  shows "(open_entry (mk_key host port) w = Some conn \<and> undisturbed (mk_key host port) conn es w \<longrightarrow>
            getConnection host port w = (Existing conn, w) \<and>
            getConnection host port (pool_run es w) = (Existing conn, pool_run es w)) \<and>
         ((\<exists>s. fst (getConnection host port w) = Pending s) \<longleftrightarrow>
            open_entry (mk_key host port) w = None) \<and>
         (open_entry (mk_key host port) w = None \<longrightarrow>
            fst (getConnection host port w) = Pending (nsocks w) \<and>
            Map_get (mk_key host port)
              (connections (pool_step (SockConnect (nsocks w)) (snd (getConnection host port w))))
              = Some (nsocks w)) \<and>
         (s < nsocks w \<and> s \<in> connecting w \<longrightarrow>
            Map_get (sock_key w s) (connections (pool_step (SockConnect s) w)) = Some s)"
proof (intro conjI impI)
  assume a: "open_entry (mk_key host port) w = Some conn \<and> undisturbed (mk_key host port) conn es w"
  then show "getConnection host port w = (Existing conn, w)"
    using open_entry_Some by blast
  from a have "open_entry (mk_key host port) (pool_run es w) = Some conn"
    using open_entry_undisturbed by blast
  then show "getConnection host port (pool_run es w) = (Existing conn, pool_run es w)"
    by (rule open_entry_Some)
next
  show "(\<exists>s. fst (getConnection host port w) = Pending s) \<longleftrightarrow>
            open_entry (mk_key host port) w = None"
    by (rule open_entry_None_iff)
next
  assume "open_entry (mk_key host port) w = None"
  then obtain m where g: "getConnection host port w =
             (Pending (nsocks w),
              w\<lparr>connections := m, nsocks := Suc (nsocks w),
                sock_key := (sock_key w)(nsocks w := mk_key host port),
                connecting := insert (nsocks w) (connecting w),
                destroyed := destroyed w - {nsocks w}\<rparr>)"
    using getConnection_fresh by blast
  then show "fst (getConnection host port w) = Pending (nsocks w)" by simp
  show "Map_get (mk_key host port)
              (connections (pool_step (SockConnect (nsocks w)) (snd (getConnection host port w))))
              = Some (nsocks w)"
    by (simp add: g on_connect_def Map_get_set)
next
  assume "s < nsocks w \<and> s \<in> connecting w"
  then show "Map_get (sock_key w s) (connections (pool_step (SockConnect s) w)) = Some s"
    by (simp add: on_connect_def Map_get_set)
qed

text \<open>
  The theorem at work on a pool that holds a connected socket for \<^verbatim>\<open>localhost:8080\<close>,
  with a second host connecting, failing and closing between the two calls, and on the
  empty pool.
\<close>

theorem acquire_reuses_undisturbed_witness:
  "open_entry (mk_key localhost 8080) (pool_run [Acquire localhost 8080, SockConnect 0] new_pool) = Some 0 \<and>
   undisturbed (mk_key localhost 8080) 0
     [Acquire otherhost 8080, SockConnect 1, Acquire localhost 8080, SockError 1, SockClose 1, Destroy 1]
     (pool_run [Acquire localhost 8080, SockConnect 0] new_pool) \<and>
   fst (getConnection localhost 8080 (pool_run [Acquire localhost 8080, SockConnect 0] new_pool))
     = Existing 0 \<and>
   fst (getConnection localhost 8080
     (pool_run [Acquire otherhost 8080, SockConnect 1, Acquire localhost 8080, SockError 1, SockClose 1, Destroy 1]
       (pool_run [Acquire localhost 8080, SockConnect 0] new_pool))) = Existing 0 \<and>
   open_entry (mk_key localhost 8080) new_pool = None \<and>
   fst (getConnection localhost 8080 new_pool) = Pending 0 \<and>
   Map_get (mk_key localhost 8080)
     (connections (pool_step (SockConnect 0) (snd (getConnection localhost 8080 new_pool)))) = Some 0"
  using acquire_reuses_undisturbed [of localhost 8080
      "pool_run [Acquire localhost 8080, SockConnect 0] new_pool" 0
      "[Acquire otherhost 8080, SockConnect 1, Acquire localhost 8080, SockError 1, SockClose 1, Destroy 1]" 0]
    acquire_reuses_undisturbed [of localhost 8080 new_pool 0 "[]" 0]
    keys_differ
  by (simp add: eval_defs)

text \<open>
  Claim C5 as it is stated fails. Two calls for an unseen key have created the sockets 0
  and 1. Once both are connected the OPEN entry is socket 1; the close of socket 0, which
  is no close and no error of socket 1, removes the entry, and the next call creates
  socket 2. And once socket 0 alone is connected it is the OPEN entry; the connect of
  socket 1 then stores socket 1 over it, and the next call hands back socket 1.
\<close>

theorem acquire_disturbed_by_same_key:
  "(let w = pool_run [Acquire localhost 8080, Acquire localhost 8080, SockConnect 0, SockConnect 1]
              new_pool
    in open_entry (mk_key localhost 8080) w = Some 1 \<and>
       fst (getConnection localhost 8080 w) = Existing 1 \<and>
       1 \<notin> destroyed (pool_step (SockClose 0) w) \<and>
       connections (pool_step (SockClose 0) w) = [] \<and>
       fst (getConnection localhost 8080 (pool_step (SockClose 0) w)) = Pending 2) \<and>
   (let w = pool_run [Acquire localhost 8080, Acquire localhost 8080, SockConnect 0] new_pool
    in open_entry (mk_key localhost 8080) w = Some 0 \<and>
       fst (getConnection localhost 8080 w) = Existing 0 \<and>
       0 \<notin> destroyed (pool_step (SockConnect 1) w) \<and>
       connections (pool_step (SockConnect 1) w) = [(mk_key localhost 8080, 1)] \<and>
       fst (getConnection localhost 8080 (pool_step (SockConnect 1) w)) = Existing 1)"
  by (simp add: eval_defs)

text \<open>
  Claim C6, as amended. When the timer fires on a pending invocation, the invocation fails
  with the timeout. If it holds a socket by then, the socket is destroyed, and once the
  close of that socket is handled the key of the invocation is no longer among the keys of
  the pool. If it holds no socket yet, nothing is destroyed and the pool stays as it is.
\<close>

theorem timeout_destroys_acquired:
  assumes "pool_ok w"
    and "promise (run es (sendTCPCommand host port c opts t w)) = None"
  shows "promise (step TimeoutFires (run es (sendTCPCommand host port c opts t w)))
           = Some (Timeout (or_number (opt_timeout opts) t)) \<and>
         (socket (run es (sendTCPCommand host port c opts t w)) = Some s \<longrightarrow>
            s \<in> destroyed (step TimeoutFires (run es (sendTCPCommand host port c opts t w))) \<and>
            mk_key host port \<notin> set (Map_keys (connections
              (step (Close s) (step TimeoutFires (run es (sendTCPCommand host port c opts t w))))))) \<and>
         (socket (run es (sendTCPCommand host port c opts t w)) = None \<longrightarrow>
            destroyed (step TimeoutFires (run es (sendTCPCommand host port c opts t w)))
              = destroyed (run es (sendTCPCommand host port c opts t w)) \<and>
            connections (step TimeoutFires (run es (sendTCPCommand host port c opts t w)))
              = connections (run es (sendTCPCommand host port c opts t w)))"
proof -
  let ?st = "run es (sendTCPCommand host port c opts t w)"
  have ok: "cmd_ok (mk_key host port) ?st" using assms(1) by (rule cmd_ok_reachable)
  have armed: "timeoutId ?st \<noteq> None" using ok assms(2) by (simp add: cmd_ok_def)
  then have fire: "step TimeoutFires ?st = timeout_cb ?st" by simp
  have 1: "promise (step TimeoutFires ?st) = Some (Timeout (or_number (opt_timeout opts) t))"
    using timeout_settles [OF assms(2) armed] by (simp add: run_frame sendTCPCommand_consts)
  have 2: "s \<in> destroyed (step TimeoutFires ?st) \<and>
       mk_key host port \<notin> set (Map_keys (connections (step (Close s) (step TimeoutFires ?st))))"
    if s: "socket ?st = Some s"
  proof -
    from ok s have k: "s < nsocks ?st" "sock_key ?st s = mk_key host port"
      by (simp_all add: cmd_ok_def)
    from timeout_cb_socket [OF s] have d: "s \<in> destroyed (timeout_cb ?st)"
      and n: "nsocks (timeout_cb ?st) = nsocks ?st" and sk: "sock_key (timeout_cb ?st) = sock_key ?st"
      by simp_all
    have "sock_key (timeout_cb ?st) s \<notin>
        set (Map_keys (connections (sock_close s (timeout_cb ?st))))"
      by (rule closed_key_gone)
    then have "mk_key host port \<notin> set (Map_keys (connections (step (Close s) (timeout_cb ?st))))"
      using k n sk by (simp add: ev_close_def)
    with d show ?thesis unfolding fire by simp
  qed
  have 3: "destroyed (step TimeoutFires ?st) = destroyed ?st \<and>
       connections (step TimeoutFires ?st) = connections ?st"
    if "socket ?st = None"
    using timeout_cb_no_socket [OF that] unfolding fire by simp
  from 1 2 3 show ?thesis by blast
qed

text \<open>
  The theorem at work: a command whose peer answers without the delimiter, and a command
  whose connect is still pending.
\<close>

theorem timeout_destroys_acquired_witness:
  "pool_ok new_pool \<and>
   promise (run [Connect 0, Data 0 (js ''STATUS'')]
      (sendTCPCommand localhost 8080 (js ''GET_STATUS'') no_options 5000 new_pool)) = None \<and>
   socket (run [Connect 0, Data 0 (js ''STATUS'')]
      (sendTCPCommand localhost 8080 (js ''GET_STATUS'') no_options 5000 new_pool)) = Some 0 \<and>
   promise (step TimeoutFires (run [Connect 0, Data 0 (js ''STATUS'')]
      (sendTCPCommand localhost 8080 (js ''GET_STATUS'') no_options 5000 new_pool)))
     = Some (Timeout 5000) \<and>
   0 \<in> destroyed (step TimeoutFires (run [Connect 0, Data 0 (js ''STATUS'')]
      (sendTCPCommand localhost 8080 (js ''GET_STATUS'') no_options 5000 new_pool))) \<and>
   mk_key localhost 8080 \<in> set (Map_keys (connections (run [Connect 0, Data 0 (js ''STATUS'')]
      (sendTCPCommand localhost 8080 (js ''GET_STATUS'') no_options 5000 new_pool)))) \<and>
   mk_key localhost 8080 \<notin> set (Map_keys (connections (step (Close 0) (step TimeoutFires
      (run [Connect 0, Data 0 (js ''STATUS'')]
        (sendTCPCommand localhost 8080 (js ''GET_STATUS'') no_options 5000 new_pool)))))) \<and>
   socket (run [] (sendTCPCommand localhost 8080 (js ''GET_STATUS'') no_options 5000 new_pool)) = None \<and>
   destroyed (step TimeoutFires
      (run [] (sendTCPCommand localhost 8080 (js ''GET_STATUS'') no_options 5000 new_pool))) = {}"
  using timeout_destroys_acquired [of new_pool "[Connect 0, Data 0 (js ''STATUS'')]"
      localhost 8080 "js ''GET_STATUS''" no_options 5000 0]
    timeout_destroys_acquired [of new_pool "[]" localhost 8080 "js ''GET_STATUS''" no_options 5000 0]
  by (simp add: eval_defs pool_ok_def js_def)

text \<open>
  Claim C6 as it is stated fails: the timer fires while the connect is pending, the connect
  completes afterwards. The command has failed with the timeout, yet the socket is not
  destroyed, it is stored under its key, and the command has been written to it.
\<close>

theorem timeout_while_connecting_keeps_entry:
  "(let st = run [TimeoutFires, Connect 0]
               (sendTCPCommand localhost 8080 (js ''GET_STATUS'') no_options 5000 new_pool)
    in promise st = Some (Timeout 5000) \<and> 0 \<notin> destroyed st \<and> destroyed st = {} \<and>
       mk_key localhost 8080 \<in> set (Map_keys (connections st)) \<and>
       connections st = [(mk_key localhost 8080, 0)] \<and>
       wire st = [(0, js ''GET_STATUS'' @ [0x0A])])"
  by (simp add: eval_defs)


text \<open>
  Claim C8, as amended. Whatever the callers and the sockets do, a key has at most one
  OPEN entry and no key is stored twice; the close of a socket removes the entry of its
  key in the handler of that close; the error of a socket leaves the stored entries as
  they are.
\<close>

theorem registry_one_open_entry:
  fixes w :: world
  assumes "pool_ok w" and "s < nsocks (pool_run es w)"
  shows "length (open_entries k (pool_run es w)) \<le> 1 \<and>
         distinct (Map_keys (connections (pool_run es w))) \<and>
         sock_key (pool_run es w) s \<notin>
           set (Map_keys (connections (pool_step (SockClose s) (pool_run es w)))) \<and>
         connections (pool_step (SockError s) (pool_run es w)) = connections (pool_run es w)"
proof -
  have ok: "pool_ok (pool_run es w)" using assms(1) by (rule pool_ok_pool_run)
  then have "length (open_entries k (pool_run es w)) \<le> 1" by (rule open_entries_le_1)
  moreover have "distinct (Map_keys (connections (pool_run es w)))"
    using ok by (simp add: pool_ok_def)
  moreover have "sock_key (pool_run es w) s \<notin>
           set (Map_keys (connections (pool_step (SockClose s) (pool_run es w))))"
    using assms(2) by (simp add: closed_key_gone)
  moreover have "connections (pool_step (SockError s) (pool_run es w)) = connections (pool_run es w)"
    by (simp add: sock_error_def)
  ultimately show ?thesis by blast
qed

text \<open>
  The theorem at work on a pool that holds a connected socket for \<^verbatim>\<open>localhost:8080\<close>.
\<close>

theorem registry_one_open_entry_witness:
  "pool_ok new_pool \<and>
   0 < nsocks (pool_run [Acquire localhost 8080, SockConnect 0] new_pool) \<and>
   connections (pool_run [Acquire localhost 8080, SockConnect 0] new_pool) = [(mk_key localhost 8080, 0)] \<and>
   length (open_entries (mk_key localhost 8080) (pool_run [Acquire localhost 8080, SockConnect 0] new_pool)) \<le> 1 \<and>
   sock_key (pool_run [Acquire localhost 8080, SockConnect 0] new_pool) 0 = mk_key localhost 8080 \<and>
   mk_key localhost 8080 \<notin>
     set (Map_keys (connections (pool_step (SockClose 0)
        (pool_run [Acquire localhost 8080, SockConnect 0] new_pool))))"
  using registry_one_open_entry [of new_pool 0 "[Acquire localhost 8080, SockConnect 0]" "mk_key localhost 8080"]
  by (simp add: eval_defs pool_ok_def)

text \<open>
  Claim C8 as it is stated fails for the error: after the error of the stored socket the
  key is still among the keys of the pool, with a destroyed socket; the entry goes with the
  close that follows.
\<close>

theorem error_leaves_entry:
  "(let st = run [Connect 0, Error 0 (js ''read ECONNRESET'') (js ''ECONNRESET'')]
               (sendTCPCommand localhost 8080 (js ''GET_STATUS'') no_options 5000 new_pool)
    in connections st = [(mk_key localhost 8080, 0)] \<and> 0 \<in> destroyed st \<and>
       mk_key localhost 8080 \<in> set (Map_keys (connections st)) \<and>
       connections (step (Close 0) st) = []) \<and>
   connections (pool_run [Acquire localhost 8080, SockConnect 0, SockError 0] new_pool)
     = [(mk_key localhost 8080, 0)]"
  by (simp add: eval_defs)

text \<open>
  Claim C9, as amended. Two calls of \<^verbatim>\<open>getConnection\<close> for a key with no OPEN entry,
  the second before the first connect has completed, start two connect attempts on two
  sockets. Whichever connects last holds the key; the other one is connected, not
  destroyed and not stored.
\<close>

theorem concurrent_acquire_orphans:
  fixes w :: world
  assumes ok: "pool_ok w" and unseen: "open_entry (mk_key host port) w = None"
  shows "fst (getConnection host port w) = Pending (nsocks w) \<and>
         fst (getConnection host port (snd (getConnection host port w))) = Pending (Suc (nsocks w)) \<and>
         (let w2 = pool_run [Acquire host port, Acquire host port] w;
              first = nsocks w; second = Suc (nsocks w);
              w' = pool_run [SockConnect first, SockConnect second] w2;
              w'' = pool_run [SockConnect second, SockConnect first] w2
          in Map_get (mk_key host port) (connections w') = Some second \<and>
             first \<notin> snd ` set (connections w') \<and> first \<notin> destroyed w' \<and> first \<notin> connecting w' \<and>
             Map_get (mk_key host port) (connections w'') = Some first \<and>
             second \<notin> snd ` set (connections w'') \<and> second \<notin> destroyed w'' \<and>
             second \<notin> connecting w'')"
proof -
  let ?k = "mk_key host port" and ?n = "nsocks w"
  from getConnection_fresh [OF unseen] obtain m where
    m: "set m \<subseteq> set (connections w)" "Map_get ?k m = None"
       "distinct (Map_keys (connections w)) \<longrightarrow> distinct (Map_keys m)"
    and g1: "getConnection host port w =
             (Pending ?n,
              w\<lparr>connections := m, nsocks := Suc ?n, sock_key := (sock_key w)(?n := ?k),
                connecting := insert ?n (connecting w), destroyed := destroyed w - {?n}\<rparr>)"
    by blast
  define w1 where "w1 = snd (getConnection host port w)"
  have w1: "connections w1 = m" "nsocks w1 = Suc ?n" "sock_key w1 = (sock_key w)(?n := ?k)"
    "connecting w1 = insert ?n (connecting w)" "destroyed w1 = destroyed w - {?n}"
    by (simp_all add: w1_def g1)
  have "open_entry ?k w1 = None" by (simp add: open_entry_def w1 m)
  from getConnection_fresh [OF this] obtain m' where
    m': "set m' \<subseteq> set (connections w1)" "distinct (Map_keys (connections w1)) \<longrightarrow> distinct (Map_keys m')"
    and g2: "getConnection host port w1 =
             (Pending (nsocks w1),
              w1\<lparr>connections := m', nsocks := Suc (nsocks w1),
                sock_key := (sock_key w1)(nsocks w1 := ?k),
                connecting := insert (nsocks w1) (connecting w1),
                destroyed := destroyed w1 - {nsocks w1}\<rparr>)"
    by blast
  define w2 where "w2 = pool_run [Acquire host port, Acquire host port] w"
  have w2: "connections w2 = m'" "nsocks w2 = Suc (Suc ?n)"
    "sock_key w2 = (sock_key w)(?n := ?k, Suc ?n := ?k)"
    "connecting w2 = insert (Suc ?n) (insert ?n (connecting w))"
    "destroyed w2 = destroyed w - {?n} - {Suc ?n}"
    using g2 by (simp_all add: w2_def w1_def [symmetric] w1)
  have sub: "set m' \<subseteq> set (connections w)" using m' m w1 by auto
  have dist: "distinct (Map_keys (connections w2))"
    using ok m m' by (simp add: w2 w1 pool_ok_def)
  have old: "\<forall>e \<in> set (connections w2). snd e < ?n"
    using ok sub by (auto simp: w2 pool_ok_def)
  then have f1: "?n \<notin> snd ` set (connections w2)" and f2: "Suc ?n \<notin> snd ` set (connections w2)"
    by auto
  have A: "Map_get ?k (connections (pool_run [SockConnect ?n, SockConnect (Suc ?n)] w2)) = Some (Suc ?n) \<and>
         ?n \<notin> snd ` set (connections (pool_run [SockConnect ?n, SockConnect (Suc ?n)] w2)) \<and>
         ?n \<notin> destroyed (pool_run [SockConnect ?n, SockConnect (Suc ?n)] w2) \<and>
         ?n \<notin> connecting (pool_run [SockConnect ?n, SockConnect (Suc ?n)] w2)"
    by (rule two_connects [OF dist _ _ _ _ _ _ _ _ f1]) (simp_all add: w2)
  have B: "Map_get ?k (connections (pool_run [SockConnect (Suc ?n), SockConnect ?n] w2)) = Some ?n \<and>
         Suc ?n \<notin> snd ` set (connections (pool_run [SockConnect (Suc ?n), SockConnect ?n] w2)) \<and>
         Suc ?n \<notin> destroyed (pool_run [SockConnect (Suc ?n), SockConnect ?n] w2) \<and>
         Suc ?n \<notin> connecting (pool_run [SockConnect (Suc ?n), SockConnect ?n] w2)"
    by (rule two_connects [OF dist _ _ _ _ _ _ _ _ f2]) (simp_all add: w2)
  have "fst (getConnection host port w) = Pending ?n" by (simp add: g1)
  moreover have "fst (getConnection host port (snd (getConnection host port w))) = Pending (Suc ?n)"
    using g2 by (simp add: w1_def [symmetric] w1)
  ultimately show ?thesis
    using A B unfolding Let_def w2_def by blast
qed

text \<open>
  The theorem at work on the empty pool.
\<close>

theorem concurrent_acquire_orphans_witness:
  "pool_ok new_pool \<and> open_entry (mk_key localhost 8080) new_pool = None \<and>
   fst (getConnection localhost 8080 new_pool) = Pending 0 \<and>
   fst (getConnection localhost 8080 (snd (getConnection localhost 8080 new_pool))) = Pending 1 \<and>
   Map_get (mk_key localhost 8080)
     (connections (pool_run [Acquire localhost 8080, Acquire localhost 8080, SockConnect 0, SockConnect 1]
        new_pool)) = Some 1"
  using concurrent_acquire_orphans [of new_pool localhost 8080]
  by (simp add: eval_defs pool_ok_def)

text \<open>
  Claim C9 as it is stated fails: on the empty pool the two calls do not share one attempt,
  they create the sockets 0 and 1, and after both have connected socket 0 is connected and
  kept by nobody.
\<close>

theorem concurrent_acquire_two_attempts:
  "fst (getConnection localhost 8080 new_pool) = Pending 0 \<and>
   fst (getConnection localhost 8080 (snd (getConnection localhost 8080 new_pool))) = Pending 1 \<and>
   Pending 0 \<noteq> Pending 1 \<and>
   (let w = pool_run [Acquire localhost 8080, Acquire localhost 8080, SockConnect 0, SockConnect 1]
              new_pool
    in connections w = [(mk_key localhost 8080, 1)] \<and> 0 \<notin> connecting w \<and> 0 \<notin> destroyed w)"
  by (simp add: eval_defs)

text \<open>
  Claim C10. The timer is armed before the pool is asked for the connection: the state
  handed to the acquisition has the timer armed and no socket. With no OPEN entry the
  invocation is left waiting for the connect. Whenever the timer fires while it is still
  waiting, the command fails with the timeout, and neither before nor by that firing has
  anything been written to a socket or any socket been destroyed.
\<close>

theorem timer_armed_before_acquire:
  "timeoutId (arm_timeout c opts t w) = Some (or_number (opt_timeout opts) t) \<and>
   socket (arm_timeout c opts t w) = None \<and> awaiting (arm_timeout c opts t w) = None \<and>
   wire (arm_timeout c opts t w) = wire w \<and>
   sendTCPCommand host port c opts t w = acquire host port (arm_timeout c opts t w) \<and>
   timeoutId (sendTCPCommand host port c opts t w) = Some (or_number (opt_timeout opts) t) \<and>
   (open_entry (mk_key host port) w = None \<longrightarrow>
      awaiting (sendTCPCommand host port c opts t w) = Some (nsocks w)) \<and>
   (awaiting (run es (sendTCPCommand host port c opts t w)) = Some s \<and>
    promise (run es (sendTCPCommand host port c opts t w)) = None \<longrightarrow>
      timeoutId (run es (sendTCPCommand host port c opts t w)) \<noteq> None \<and>
      wire (run es (sendTCPCommand host port c opts t w)) = wire w \<and>
      promise (step TimeoutFires (run es (sendTCPCommand host port c opts t w)))
        = Some (Timeout (or_number (opt_timeout opts) t)) \<and>
      wire (step TimeoutFires (run es (sendTCPCommand host port c opts t w))) = wire w \<and>
      destroyed (step TimeoutFires (run es (sendTCPCommand host port c opts t w)))
        = destroyed (run es (sendTCPCommand host port c opts t w)))"
proof -
  let ?ini = "sendTCPCommand host port c opts t w"
  let ?st = "run es ?ini"
  have a: "timeoutId (arm_timeout c opts t w) = Some (or_number (opt_timeout opts) t) \<and>
   socket (arm_timeout c opts t w) = None \<and> awaiting (arm_timeout c opts t w) = None \<and>
   wire (arm_timeout c opts t w) = wire w"
    by (simp add: arm_timeout_def Let_def)
  have b: "awaiting ?ini = Some (nsocks w)" if "open_entry (mk_key host port) w = None"
  proof -
    have "open_entry (mk_key host port) (arm_timeout c opts t w) = None"
      using that by (simp add: open_entry_def arm_timeout_def Let_def cong: option.case_cong)
    from getConnection_fresh [OF this] obtain st1 where
      "getConnection host port (arm_timeout c opts t w)
         = (Pending (nsocks (arm_timeout c opts t w)), st1)"
      by blast
    moreover have "nsocks (arm_timeout c opts t w) = nsocks w"
      by (simp add: arm_timeout_def Let_def)
    ultimately show ?thesis by (simp add: sendTCPCommand_def acquire_def)
  qed
  have c: "timeoutId ?st \<noteq> None \<and> wire ?st = wire w \<and>
      promise (step TimeoutFires ?st) = Some (Timeout (or_number (opt_timeout opts) t)) \<and>
      wire (step TimeoutFires ?st) = wire w \<and>
      destroyed (step TimeoutFires ?st) = destroyed ?st"
    if aw: "awaiting ?st = Some s" and p: "promise ?st = None"
  proof -
    from awaiting_run [OF aw] have aw0: "awaiting ?ini = Some s" and w1: "wire ?st = wire ?ini"
      by simp_all
    from sendTCPCommand_wire [OF aw0] have w0: "wire ?ini = wire w" and s0: "socket ?ini = None"
      by simp_all
    have ns: "socket ?st = None"
      by (rule no_socket_run) (simp_all add: s0 aw)
    have armed: "timeoutId ?st \<noteq> None"
      by (rule pending_armed_run [OF _ p]) (simp add: sendTCPCommand_consts)
    then have fire: "step TimeoutFires ?st = timeout_cb ?st" by simp
    have "promise (step TimeoutFires ?st) = Some (Timeout (or_number (opt_timeout opts) t))"
      using timeout_settles [OF p armed] by (simp add: run_frame sendTCPCommand_consts)
    moreover have "wire (step TimeoutFires ?st) = wire w \<and>
        destroyed (step TimeoutFires ?st) = destroyed ?st"
      using timeout_cb_no_socket [OF ns] w1 w0 unfolding fire by simp
    ultimately show ?thesis using armed w1 w0 by simp
  qed
  have d: "sendTCPCommand host port c opts t w = acquire host port (arm_timeout c opts t w)"
    by (simp add: sendTCPCommand_def)
  have e: "timeoutId ?ini = Some (or_number (opt_timeout opts) t)"
    by (simp add: sendTCPCommand_consts)
  from a b c d e show ?thesis by blast
qed

text \<open>
  The theorem at work on the empty pool.
\<close>

theorem timer_armed_before_acquire_witness:
  "open_entry (mk_key localhost 8080) new_pool = None \<and>
   awaiting (run [] (sendTCPCommand localhost 8080 (js ''GET_STATUS'') no_options 5000 new_pool)) = Some 0 \<and>
   promise (run [] (sendTCPCommand localhost 8080 (js ''GET_STATUS'') no_options 5000 new_pool)) = None \<and>
   timeoutId (sendTCPCommand localhost 8080 (js ''GET_STATUS'') no_options 5000 new_pool) = Some 5000 \<and>
   promise (step TimeoutFires (run [] (sendTCPCommand localhost 8080 (js ''GET_STATUS'') no_options 5000 new_pool)))
     = Some (Timeout 5000) \<and>
   wire (step TimeoutFires (run [] (sendTCPCommand localhost 8080 (js ''GET_STATUS'') no_options 5000 new_pool)))
     = []"
  using timer_armed_before_acquire [of "js ''GET_STATUS''" no_options 5000 new_pool localhost 8080 "[]" 0]
  by (simp add: eval_defs)

end
